theory Spec2Isabelle
  imports Complex_Main "HOL-Library.Char_ord" "HOL-Library.List_Lexorder" "HOL-Library.AList"
begin

section \<open>Python values\<close>

text \<open>
  The values that travel through a sweep are the scalars of a JSON document.  Python's
  unbounded \<open>int\<close> is \<^typ>\<open>int\<close>.  A \<open>float\<close> is modelled by the rational number it
  denotes: every finite double is a rational, and the operations below (comparison,
  rounding to decimals, formatting) are defined on the exact value.  Sums and products
  of floats are taken exactly, without the rounding of binary floating point; infinities
  and NaN are not represented.  Strings are byte strings, compared lexicographically by
  character code as Python compares \<open>str\<close>.
\<close>

datatype scalar = SNone | SBool bool | SInt int | SFloat rat | SStr string

text \<open>A JSON document: a scalar, a list, or an object with string keys in insertion order.\<close>

datatype json = JS scalar | JList "json list" | JDict "(string \<times> json) list"

text \<open>
  Exceptions are values.  A message is the text of the source with its placeholders left
  as written.
\<close>

datatype error =
    KeyError
  | IndexError
  | TypeError
  | ValueError string
  | RuntimeError string

section \<open>Naming engine (wedge\_submitter.py)\<close>

subsection \<open>Decimal rendering\<close>

definition digit_char :: "int \<Rightarrow> char" where
  "digit_char d =
     (if d = 0 then CHR ''0'' else if d = 1 then CHR ''1'' else if d = 2 then CHR ''2''
      else if d = 3 then CHR ''3'' else if d = 4 then CHR ''4'' else if d = 5 then CHR ''5''
      else if d = 6 then CHR ''6'' else if d = 7 then CHR ''7'' else if d = 8 then CHR ''8''
      else CHR ''9'')"

function dec_digits :: "int \<Rightarrow> string" where
  "dec_digits n =
     (if n < 10 then [digit_char n] else dec_digits (n div 10) @ [digit_char (n mod 10)])"
  by pat_completeness auto
termination
  by (relation "measure nat") auto

declare dec_digits.simps [simp del]

text \<open>\<open>str(n)\<close> for a Python int.\<close>

definition str_int :: "int \<Rightarrow> string" where
  "str_int n = (if n < 0 then CHR ''-'' # dec_digits (- n) else dec_digits n)"

text \<open>The number of decimal digits of a positive integer, minus one.\<close>

function ilog10 :: "int \<Rightarrow> int" where
  "ilog10 n = (if n < 10 then 0 else 1 + ilog10 (n div 10))"
  by pat_completeness auto
termination
  by (relation "measure nat") auto

declare ilog10.simps [simp del]

definition pow10 :: "int \<Rightarrow> rat" where
  "pow10 e = (if 0 \<le> e then 10 ^ nat e else 1 / 10 ^ nat (- e))"

text \<open>Rounding to the nearest integer, ties to even: Python's \<open>round(x)\<close>.\<close>

definition round_half_even :: "rat \<Rightarrow> int" where
  "round_half_even x =
     (let f = \<lfloor>x\<rfloor>; d = x - of_int f
      in if d < 1 / 2 then f else if 1 / 2 < d then f + 1
         else if even f then f else f + 1)"

text \<open>The decimal exponent of a positive rational: \<open>10 ^ e \<le> a < 10 ^ (e + 1)\<close>.\<close>

definition dec_exponent :: "rat \<Rightarrow> int" where
  "dec_exponent a =
     (if 1 \<le> a then ilog10 \<lfloor>a\<rfloor> else - (ilog10 (\<lceil>1 / a\<rceil> - 1) + 1))"

definition strip_zeros :: "string \<Rightarrow> string" where
  "strip_zeros s = rev (dropWhile (\<lambda>c. c = CHR ''0'') (rev s))"

text \<open>The exponent field of the \<open>e\<close> style: a sign and at least two digits.\<close>

definition exp_field :: "int \<Rightarrow> string" where
  "exp_field e =
     (let ds = dec_digits \<bar>e\<bar>
      in (if e < 0 then CHR ''-'' else CHR ''+'') # (if length ds < 2 then CHR ''0'' # ds else ds))"

text \<open>
  \<open>format(x, ".10g")\<close>: ten significant digits, correctly rounded (ties to even); fixed
  notation when the decimal exponent \<open>e\<close> of the rounded value has \<open>-4 \<le> e < 10\<close>, else
  the \<open>e\<close> style; trailing zeros of the fraction removed, and the point with them.
\<close>

definition format_10g :: "rat \<Rightarrow> string" where
  "format_10g x =
     (if x = 0 then ''0''
      else
        let a = \<bar>x\<bar>;
            e0 = dec_exponent a;
            m0 = round_half_even (a * pow10 (9 - e0));
            m = (if m0 = 10 ^ 10 then 10 ^ 9 else m0);
            e = (if m0 = 10 ^ 10 then e0 + 1 else e0);
            ds = dec_digits m;
            body =
              (if - 4 \<le> e \<and> e < 10 then
                 (if 0 \<le> e then
                    (let frac = strip_zeros (drop (nat (e + 1)) ds)
                     in take (nat (e + 1)) ds @ (if frac = [] then [] else CHR ''.'' # frac))
                  else ''0.'' @ replicate (nat (- e - 1)) CHR ''0'' @ strip_zeros ds)
               else
                 (let frac = strip_zeros (tl ds)
                  in hd ds # (if frac = [] then [] else CHR ''.'' # frac) @ CHR ''e'' # exp_field e))
        in (if x < 0 then CHR ''-'' # body else body))"

text \<open>\<open>s.rstrip(".")\<close>\<close>

definition rstrip_dot :: "string \<Rightarrow> string" where
  "rstrip_dot s = rev (dropWhile (\<lambda>c. c = CHR ''.'') (rev s))"

text \<open>\<open>str(value)\<close> for the scalars that are not floats.\<close>

fun py_str :: "scalar \<Rightarrow> string" where
  "py_str SNone = ''None''"
| "py_str (SBool b) = (if b then ''True'' else ''False'')"
| "py_str (SInt n) = str_int n"
| "py_str (SFloat x) = format_10g x"
| "py_str (SStr s) = s"

subsection \<open>stringify\_value, sanitize\_value, build\_filename\<close>

fun stringify_value :: "scalar \<Rightarrow> string" where
  "stringify_value (SFloat x) = rstrip_dot (format_10g x)"
| "stringify_value v = py_str v"

text \<open>\<open>text.replace(ch, "_")\<close> for a single character \<open>ch\<close>.\<close>

definition replace_char :: "char \<Rightarrow> string \<Rightarrow> string" where
  "replace_char ch text = map (\<lambda>c. if c = ch then CHR ''_'' else c) text"

definition unsafe_chars :: "char list" where
  "unsafe_chars =
     [CHR '' '', CHR ''/'', CHR 0x5C, CHR '':'', CHR '','', CHR '';'', CHR 0x22, CHR 0x27]"

definition sanitize_value :: "scalar \<Rightarrow> string" where
  "sanitize_value v = fold replace_char unsafe_chars (stringify_value v)"

text \<open>\<open>sep.join(parts)\<close>\<close>

fun py_join :: "string \<Rightarrow> string list \<Rightarrow> string" where
  "py_join sep [] = []"
| "py_join sep [p] = p"
| "py_join sep (p # q # ps) = p @ sep @ py_join sep (q # ps)"

text \<open>
  An assignment (combination): node \<open>\<rightarrow>\<close> (param \<open>\<rightarrow>\<close> value), a Python dict of dicts,
  kept as association lists in insertion order.  A Python dict holds each key once.
\<close>

type_synonym params = "(string \<times> scalar) list"
type_synonym combination = "(string \<times> params) list"

definition wf_combination :: "combination \<Rightarrow> bool" where
  "wf_combination c \<longleftrightarrow>
     distinct (map fst c) \<and> list_all (\<lambda>(n, ps). distinct (map fst ps)) c"

text \<open>\<open>d[k]\<close>, which raises \<open>KeyError\<close> on a missing key.\<close>

definition getitem :: "('k \<times> 'v) list \<Rightarrow> 'k \<Rightarrow> error + 'v" where
  "getitem d k = (case map_of d k of None \<Rightarrow> Inl KeyError | Some v \<Rightarrow> Inr v)"

text \<open>\<open>sorted(d)\<close>: the keys of a dict in ascending order.\<close>

definition sorted_keys :: "(string \<times> 'v) list \<Rightarrow> string list" where
  "sorted_keys d = sort (map fst d)"

text \<open>The inner loop of \<open>build_filename\<close>: one token per parameter, appended to \<open>parts\<close>.\<close>

fun filename_params ::
  "string \<Rightarrow> params \<Rightarrow> string list \<Rightarrow> string list \<Rightarrow> error + string list" where
  "filename_params node_name ps [] parts = Inr parts"
| "filename_params node_name ps (param_name # rest) parts =
     (case getitem ps param_name of
        Inl e \<Rightarrow> Inl e
      | Inr v \<Rightarrow>
          filename_params node_name ps rest
            (parts @ [node_name @ ''-'' @ param_name @ ''-'' @ sanitize_value v]))"

text \<open>The outer loop over \<open>sorted(combination)\<close>.\<close>

fun filename_nodes ::
  "combination \<Rightarrow> string list \<Rightarrow> string list \<Rightarrow> error + string list" where
  "filename_nodes c [] parts = Inr parts"
| "filename_nodes c (node_name # rest) parts =
     (case getitem c node_name of
        Inl e \<Rightarrow> Inl e
      | Inr ps \<Rightarrow>
          (case filename_params node_name ps (sorted_keys ps) parts of
             Inl e \<Rightarrow> Inl e
           | Inr parts' \<Rightarrow> filename_nodes c rest parts'))"

definition build_filename :: "string \<Rightarrow> combination \<Rightarrow> error + string" where
  "build_filename prefix c =
     (case filename_nodes c (sorted_keys c) [prefix] of
        Inl e \<Rightarrow> Inl e
      | Inr parts \<Rightarrow> Inr (py_join ''__'' parts))"

section \<open>Naming in the viewer (view\_wedges.py)\<close>

fun view_stringify_value :: "scalar \<Rightarrow> string" where
  "view_stringify_value (SFloat x) = (let s = rstrip_dot (format_10g x) in s)"
| "view_stringify_value v = py_str v"

definition view_sanitize_value :: "scalar \<Rightarrow> string" where
  "view_sanitize_value v =
     fold replace_char
       [CHR '' '', CHR ''/'', CHR 0x5C, CHR '':'', CHR '','', CHR '';'', CHR 0x22, CHR 0x27]
       (view_stringify_value v)"

fun view_params ::
  "string \<Rightarrow> params \<Rightarrow> string list \<Rightarrow> string list \<Rightarrow> error + string list" where
  "view_params node ps [] parts = Inr parts"
| "view_params node ps (param # rest) parts =
     (case getitem ps param of
        Inl e \<Rightarrow> Inl e
      | Inr v \<Rightarrow>
          view_params node ps rest (parts @ [node @ ''-'' @ param @ ''-'' @ view_sanitize_value v]))"

fun view_nodes ::
  "combination \<Rightarrow> string list \<Rightarrow> string list \<Rightarrow> error + string list" where
  "view_nodes combo [] parts = Inr parts"
| "view_nodes combo (node # rest) parts =
     (case getitem combo node of
        Inl e \<Rightarrow> Inl e
      | Inr ps \<Rightarrow>
          (case view_params node ps (sorted_keys ps) parts of
             Inl e \<Rightarrow> Inl e
           | Inr parts' \<Rightarrow> view_nodes combo rest parts'))"

text \<open>The string \<open>base\<close> of \<open>update_image_display\<close>.\<close>

definition view_base :: "string \<Rightarrow> combination \<Rightarrow> error + string" where
  "view_base filename_prefix combo =
     (case view_nodes combo (sorted_keys combo) [filename_prefix] of
        Inl e \<Rightarrow> Inl e
      | Inr parts \<Rightarrow> Inr (py_join ''__'' parts))"


section \<open>Configuration model (wedge\_config\_manager.py)\<close>

text \<open>
  \<open>ParamOverride\<close> and \<open>ParamWedge\<close> are \<open>List[Any]\<close>; both mappings are
  \<open>Dict[str, List[List[Any]]]\<close>, kept in insertion order.  The three text fields hold
  whatever the document gave: \<open>vet\<close> is what checks them.
\<close>

type_synonym entry = "json list"
type_synonym node_map = "(string \<times> entry list) list"

record WedgeConfig =
  output_folder :: json
  filename_prefix :: json
  url :: json
  param_overrides :: node_map
  param_wedges :: node_map

text \<open>Python's truth value of a JSON value.\<close>

fun truthy :: "json \<Rightarrow> bool" where
  "truthy (JS SNone) = False"
| "truthy (JS (SBool b)) = b"
| "truthy (JS (SInt n)) = (n \<noteq> 0)"
| "truthy (JS (SFloat x)) = (x \<noteq> 0)"
| "truthy (JS (SStr s)) = (s \<noteq> [])"
| "truthy (JList xs) = (xs \<noteq> [])"
| "truthy (JDict d) = (d \<noteq> [])"

fun is_str :: "json \<Rightarrow> bool" where
  "is_str (JS (SStr s)) = True"
| "is_str v = False"

text \<open>\<open>d.setdefault(k, []).append(x)\<close>\<close>

definition setdefault_append :: "'k \<Rightarrow> 'v \<Rightarrow> ('k \<times> 'v list) list \<Rightarrow> ('k \<times> 'v list) list" where
  "setdefault_append k x d =
     (case map_of d k of
        None \<Rightarrow> d @ [(k, [x])]
      | Some xs \<Rightarrow> AList.update k (xs @ [x]) d)"

text \<open>
  The loop \<open>for entry in entries\<close> of both normalizers: every entry must be a list of
  \<open>n\<close> elements, and is appended to \<open>converted\<close>.
\<close>

fun convert_entries :: "nat \<Rightarrow> string \<Rightarrow> json list \<Rightarrow> entry list \<Rightarrow> error + entry list" where
  "convert_entries n msg [] converted = Inr converted"
| "convert_entries n msg (JList xs # rest) converted =
     (if length xs \<noteq> n then Inl (ValueError msg)
      else convert_entries n msg rest (converted @ [xs]))"
| "convert_entries n msg (v # rest) converted = Inl (ValueError msg)"

text \<open>\<open>\_normalize\_overrides\<close>, dict form: \<open>for node, entries in raw.items()\<close>.\<close>

fun overrides_of_dict :: "(string \<times> json) list \<Rightarrow> node_map \<Rightarrow> error + node_map" where
  "overrides_of_dict [] normalized = Inr normalized"
| "overrides_of_dict ((node, JList entries) # rest) normalized =
     (case convert_entries 2 ''param_overrides[{node!r}] entries must be [param, value] lists.''
             entries [] of
        Inl e \<Rightarrow> Inl e
      | Inr converted \<Rightarrow> overrides_of_dict rest (AList.update node converted normalized))"
| "overrides_of_dict ((node, v) # rest) normalized =
     Inl (ValueError ''param_overrides[{node!r}] must be a list.'')"

text \<open>\<open>\_normalize\_overrides\<close>, legacy list form: \<open>for entry in raw\<close>.\<close>

fun overrides_of_list :: "json list \<Rightarrow> node_map \<Rightarrow> error + node_map" where
  "overrides_of_list [] normalized = Inr normalized"
| "overrides_of_list (JList [node, param, val] # rest) normalized =
     (case node of
        JS (SStr n) \<Rightarrow> overrides_of_list rest (setdefault_append n [param, val] normalized)
      | _ \<Rightarrow> Inl (ValueError ''param_overrides node names must be strings.''))"
| "overrides_of_list (v # rest) normalized =
     Inl (ValueError ''List-form param_overrides entries must be [node, param, value].'')"

text \<open>
  \<open>raw in (None, {})\<close> compares with \<open>==\<close>: it holds of \<open>None\<close> and of the empty dict.
\<close>

fun normalize_overrides :: "json \<Rightarrow> error + node_map" where
  "normalize_overrides (JS SNone) = Inr []"
| "normalize_overrides (JDict raw) = overrides_of_dict raw []"
| "normalize_overrides (JList raw) = overrides_of_list raw []"
| "normalize_overrides v = Inl (ValueError ''param_overrides must be a dict or list.'')"

text \<open>
  \<open>\_normalize\_wedges\<close>: \<open>for key, value in raw.items()\<close>.  The modern test comes first: a
  non-empty list whose first element is a list.  Then the legacy test: a list of three
  elements.
\<close>

fun wedges_of_dict :: "(string \<times> json) list \<Rightarrow> node_map \<Rightarrow> error + node_map" where
  "wedges_of_dict [] normalized = Inr normalized"
| "wedges_of_dict ((key, JList (JList x # others)) # rest) normalized =
     (case convert_entries 3
             ''param_wedges[{node_name!r}] entries must be [param, values, mode] lists.''
             (JList x # others) [] of
        Inl e \<Rightarrow> Inl e
      | Inr converted \<Rightarrow> wedges_of_dict rest (AList.update key converted normalized))"
| "wedges_of_dict ((key, JList [node_name, values_config, mode]) # rest) normalized =
     (case node_name of
        JS (SStr n) \<Rightarrow>
          wedges_of_dict rest
            (setdefault_append n [JS (SStr key), values_config, mode] normalized)
      | _ \<Rightarrow> Inl (ValueError ''Legacy param_wedges entries must include a node title string.''))"
| "wedges_of_dict ((key, v) # rest) normalized =
     Inl (ValueError
       ''Unrecognized param_wedges entry for key '{key}'. Expected legacy or new format.'')"

fun normalize_wedges :: "json \<Rightarrow> error + node_map" where
  "normalize_wedges (JS SNone) = Inr []"
| "normalize_wedges (JDict raw) = wedges_of_dict raw []"
| "normalize_wedges v = Inl (ValueError ''param_wedges must be a dictionary.'')"

subsection \<open>vet\<close>

text \<open>\<open>not value or not isinstance(value, str)\<close>\<close>

definition bad_text :: "json \<Rightarrow> bool" where
  "bad_text v \<longleftrightarrow> \<not> truthy v \<or> \<not> is_str v"

fun vet_items :: "entry list \<Rightarrow> bool" where
  "vet_items [] = True"
| "vet_items (item # rest) = (if length item \<noteq> 2 then False else vet_items rest)"

fun vet_overrides :: "node_map \<Rightarrow> error option" where
  "vet_overrides [] = None"
| "vet_overrides ((node, overrides) # rest) =
     (if vet_items overrides then vet_overrides rest
      else Some (ValueError ''param_overrides[{node!r}] entries must be [param, value] lists.''))"

text \<open>The inner loop over the wedges of a node: the first violation is raised.\<close>

fun vet_wedge_list :: "entry list \<Rightarrow> error option" where
  "vet_wedge_list [] = None"
| "vet_wedge_list ([p, vs, wedge_type] # rest) =
     (if wedge_type \<noteq> JS (SStr ''minmax'') \<and> wedge_type \<noteq> JS (SStr ''explicit'')
      then Some (ValueError ''Unsupported wedge type '{wedge_type}' in param_wedges[{node!r}].'')
      else vet_wedge_list rest)"
| "vet_wedge_list (wedge # rest) =
     Some (ValueError
       ''param_wedges[{node!r}] entries must be [param, values, wedge_type] lists.'')"

fun vet_wedges :: "node_map \<Rightarrow> error option" where
  "vet_wedges [] = None"
| "vet_wedges ((node, wedges) # rest) =
     (case vet_wedge_list wedges of Some e \<Rightarrow> Some e | None \<Rightarrow> vet_wedges rest)"

text \<open>\<open>vet\<close> returns nothing or raises: \<open>None\<close> is the normal return.\<close>

definition vet :: "WedgeConfig \<Rightarrow> error option" where
  "vet c =
     (if bad_text (output_folder c) then
        Some (ValueError ''output_folder must be a non-empty string.'')
      else if bad_text (filename_prefix c) then
        Some (ValueError ''filename_prefix must be a non-empty string.'')
      else if bad_text (url c) then Some (ValueError ''url must be a non-empty string.'')
      else (case vet_overrides (param_overrides c) of
              Some e \<Rightarrow> Some e
            | None \<Rightarrow> vet_wedges (param_wedges c)))"

subsection \<open>from\_dict and to\_dict\<close>

text \<open>\<open>data.get(key, default)\<close>; \<open>data.get(key)\<close> has the default \<open>None\<close>.\<close>

definition dict_get :: "(string \<times> json) list \<Rightarrow> string \<Rightarrow> json \<Rightarrow> json" where
  "dict_get data key dflt = (case map_of data key of None \<Rightarrow> dflt | Some v \<Rightarrow> v)"

definition from_dict :: "(string \<times> json) list \<Rightarrow> error + WedgeConfig" where
  "from_dict data =
     (let a = dict_get data ''output_folder'' (JS SNone);
          folder = (if truthy a then a else dict_get data ''project_name'' (JS (SStr [])))
      in case normalize_overrides (dict_get data ''param_overrides'' (JDict [])) of
           Inl e \<Rightarrow> Inl e
         | Inr overrides \<Rightarrow>
             (case normalize_wedges (dict_get data ''param_wedges'' (JDict [])) of
                Inl e \<Rightarrow> Inl e
              | Inr wedges \<Rightarrow>
                  (let config =
                         \<lparr>output_folder = folder,
                          filename_prefix = dict_get data ''filename_prefix'' (JS (SStr [])),
                          url = dict_get data ''url'' (JS (SStr [])),
                          param_overrides = overrides,
                          param_wedges = wedges\<rparr>
                   in case vet config of Some e \<Rightarrow> Inl e | None \<Rightarrow> Inr config)))"

text \<open>A mapping of the config as the JSON value it is.\<close>

definition json_of_map :: "node_map \<Rightarrow> json" where
  "json_of_map m = JDict (map (\<lambda>(node, entries). (node, JList (map JList entries))) m)"

definition to_dict :: "WedgeConfig \<Rightarrow> (string \<times> json) list" where
  "to_dict c =
     [(''output_folder'', output_folder c),
      (''filename_prefix'', filename_prefix c),
      (''url'', url c),
      (''param_overrides'', json_of_map (param_overrides c)),
      (''param_wedges'', json_of_map (param_wedges c))]"

subsection \<open>Mutators\<close>

text \<open>
  \<open>[entry for entry in entries if entry[0] != param]\<close>; \<open>entry[0]\<close> raises \<open>IndexError\<close>
  on an empty entry.
\<close>

fun keep_other :: "string \<Rightarrow> entry list \<Rightarrow> error + entry list" where
  "keep_other param [] = Inr []"
| "keep_other param ([] # rest) = Inl IndexError"
| "keep_other param ((k # others) # rest) =
     (case keep_other param rest of
        Inl e \<Rightarrow> Inl e
      | Inr kept \<Rightarrow> Inr (if k \<noteq> JS (SStr param) then (k # others) # kept else kept))"

text \<open>
  \<open>entries = m.setdefault(node_name, [])\<close>, the filter written back through
  \<open>entries[:]\<close>, and \<open>entries.append(new_entry)\<close>.
\<close>

definition set_entry :: "node_map \<Rightarrow> string \<Rightarrow> string \<Rightarrow> entry \<Rightarrow> error + node_map" where
  "set_entry m node_name param new_entry =
     (let entries = (case map_of m node_name of None \<Rightarrow> [] | Some es \<Rightarrow> es)
      in case keep_other param entries of
           Inl e \<Rightarrow> Inl e
         | Inr kept \<Rightarrow> Inr (AList.update node_name (kept @ [new_entry]) m))"

text \<open>
  \<open>entries = m.get(node_name)\<close>; nothing to do when it is missing or empty; else the
  filter, and \<open>m.pop(node_name, None)\<close> when nothing is left.
\<close>

definition remove_entry :: "node_map \<Rightarrow> string \<Rightarrow> string \<Rightarrow> error + bool \<times> node_map" where
  "remove_entry m node_name param =
     (case map_of m node_name of
        None \<Rightarrow> Inr (False, m)
      | Some entries \<Rightarrow>
          if entries = [] then Inr (False, m)
          else (case keep_other param entries of
                  Inl e \<Rightarrow> Inl e
                | Inr kept \<Rightarrow>
                    Inr (length kept \<noteq> length entries,
                         if kept = [] then AList.delete node_name m
                         else AList.update node_name kept m)))"

definition set_param_override ::
  "WedgeConfig \<Rightarrow> string \<Rightarrow> string \<Rightarrow> json \<Rightarrow> error + WedgeConfig" where
  "set_param_override c node_name param val =
     (case set_entry (param_overrides c) node_name param [JS (SStr param), val] of
        Inl e \<Rightarrow> Inl e
      | Inr m \<Rightarrow> Inr (c\<lparr>param_overrides := m\<rparr>))"

definition remove_param_override ::
  "WedgeConfig \<Rightarrow> string \<Rightarrow> string \<Rightarrow> error + bool \<times> WedgeConfig" where
  "remove_param_override c node_name param =
     (case remove_entry (param_overrides c) node_name param of
        Inl e \<Rightarrow> Inl e
      | Inr (removed, m) \<Rightarrow> Inr (removed, c\<lparr>param_overrides := m\<rparr>))"

definition set_param_wedge ::
  "WedgeConfig \<Rightarrow> string \<Rightarrow> string \<Rightarrow> json list \<Rightarrow> string \<Rightarrow> error + WedgeConfig" where
  "set_param_wedge c node_name param wedge_values wedge_type =
     (if wedge_type \<noteq> ''minmax'' \<and> wedge_type \<noteq> ''explicit''
      then Inl (ValueError ''wedge_type must be 'minmax' or 'explicit'.'')
      else (case set_entry (param_wedges c) node_name param
                   [JS (SStr param), JList wedge_values, JS (SStr wedge_type)] of
              Inl e \<Rightarrow> Inl e
            | Inr m \<Rightarrow> Inr (c\<lparr>param_wedges := m\<rparr>)))"

definition remove_param_wedge ::
  "WedgeConfig \<Rightarrow> string \<Rightarrow> string \<Rightarrow> error + bool \<times> WedgeConfig" where
  "remove_param_wedge c node_name param =
     (case remove_entry (param_wedges c) node_name param of
        Inl e \<Rightarrow> Inl e
      | Inr (removed, m) \<Rightarrow> Inr (removed, c\<lparr>param_wedges := m\<rparr>))"

subsection \<open>Canonical configurations\<close>

text \<open>No node is mapped to an empty sequence.\<close>

definition no_empty :: "node_map \<Rightarrow> bool" where
  "no_empty m = list_all (\<lambda>(node, entries). entries \<noteq> []) m"

text \<open>
  A canonical configuration: it passes \<open>vet\<close>, its two mappings are dicts (each node
  once), and no node of \<open>param_wedges\<close> has an empty sequence.
\<close>

definition canonical :: "WedgeConfig \<Rightarrow> bool" where
  "canonical c \<longleftrightarrow>
     vet c = None \<and> distinct (map fst (param_overrides c))
     \<and> distinct (map fst (param_wedges c)) \<and> no_empty (param_wedges c)"

text \<open>
  The canonical shape of a document, as the interface section of the specification gives
  it: \<open>param_overrides\<close> is an object of lists of \<open>[param, value]\<close> pairs.
\<close>

fun is_pair :: "json \<Rightarrow> bool" where
  "is_pair (JList [p, v]) = True"
| "is_pair v = False"

fun current_overrides :: "json \<Rightarrow> bool" where
  "current_overrides (JDict d) =
     list_all (\<lambda>(node, v). case v of JList es \<Rightarrow> list_all is_pair es | _ \<Rightarrow> False) d"
| "current_overrides v = False"

text \<open>
  \<open>param_wedges\<close> is an object of non-empty lists of \<open>[param, values_spec, kind]\<close>
  triples, the kind one of the two recognised.
\<close>

fun is_triple :: "json \<Rightarrow> bool" where
  "is_triple (JList [p, vs, k]) = (k = JS (SStr ''minmax'') \<or> k = JS (SStr ''explicit''))"
| "is_triple v = False"

fun current_wedges :: "json \<Rightarrow> bool" where
  "current_wedges (JDict d) =
     list_all (\<lambda>(node, v). case v of JList es \<Rightarrow> es \<noteq> [] \<and> list_all is_triple es | _ \<Rightarrow> False) d"
| "current_wedges v = False"

text \<open>
  A document in the current shape: both mappings as above, under the current keys, and
  no legacy \<open>project_name\<close>.
\<close>

definition current_shape :: "(string \<times> json) list \<Rightarrow> bool" where
  "current_shape doc \<longleftrightarrow>
     (case map_of doc ''param_overrides'' of None \<Rightarrow> False | Some v \<Rightarrow> current_overrides v)
     \<and> (case map_of doc ''param_wedges'' of None \<Rightarrow> False | Some v \<Rightarrow> current_wedges v)
     \<and> map_of doc ''output_folder'' \<noteq> None
     \<and> map_of doc ''project_name'' = None"

text \<open>The entries of a node that are keyed by a parameter.\<close>

definition entries_for :: "node_map \<Rightarrow> string \<Rightarrow> string \<Rightarrow> entry list" where
  "entries_for m node_name param =
     (case map_of m node_name of
        None \<Rightarrow> []
      | Some es \<Rightarrow> filter (\<lambda>e. case e of [] \<Rightarrow> False | k # _ \<Rightarrow> k = JS (SStr param)) es)"

text \<open>Every entry of every node has a first element, so that \<open>entry[0]\<close> is defined.\<close>

definition keyed :: "node_map \<Rightarrow> bool" where
  "keyed m = list_all (\<lambda>(node, entries). list_all (\<lambda>e. e \<noteq> []) entries) m"

text \<open>A configuration with two overrides, one node without any, and two wedges.\<close>

definition example_config :: WedgeConfig where
  "example_config =
     \<lparr>output_folder = JS (SStr ''out''), filename_prefix = JS (SStr ''img''),
      url = JS (SStr ''127.0.0.1:8188''),
      param_overrides = [(''Loader'', [[JS (SStr ''ckpt''), JS (SStr ''base'')]]), (''Empty'', [])],
      param_wedges =
        [(''KSampler'',
          [[JS (SStr ''cfg''), JList [JS (SInt 1), JS (SInt 3), JS (SFloat (1 / 2))], JS (SStr ''minmax'')],
           [JS (SStr ''seed''), JList [JS (SInt 7), JS (SInt 11)], JS (SStr ''explicit'')]])]\<rparr>"

text \<open>A document whose \<open>param_overrides\<close> names a node without any override.\<close>

definition empty_node_doc :: "(string \<times> json) list" where
  "empty_node_doc =
     [(''output_folder'', JS (SStr ''out'')), (''filename_prefix'', JS (SStr ''img'')),
      (''url'', JS (SStr ''127.0.0.1:8188'')),
      (''param_overrides'', JDict [(''A'', JList [])])]"

text \<open>What \<open>from_dict\<close> makes of that document.\<close>

definition empty_node_config :: WedgeConfig where
  "empty_node_config =
     \<lparr>output_folder = JS (SStr ''out''), filename_prefix = JS (SStr ''img''),
      url = JS (SStr ''127.0.0.1:8188''),
      param_overrides = [(''A'', [])], param_wedges = []\<rparr>"

text \<open>A configuration with one override and one wedge.\<close>

definition small_config :: WedgeConfig where
  "small_config =
     \<lparr>output_folder = JS (SStr ''out''), filename_prefix = JS (SStr ''img''),
      url = JS (SStr ''127.0.0.1:8188''),
      param_overrides = [(''Loader'', [[JS (SStr ''ckpt''), JS (SStr ''base'')]])],
      param_wedges =
        [(''KSampler'',
          [[JS (SStr ''seed''), JList [JS (SInt 7), JS (SInt 11)], JS (SStr ''explicit'')]])]\<rparr>"

section \<open>Combination engine (wedge\_submitter.py)\<close>

text \<open>\<open>Axis = Tuple[Tuple[str, str], List[Any]]\<close>: the (node, param) key and its values.\<close>

type_synonym axis = "(string \<times> string) \<times> scalar list"

text \<open>
  \<open>itertools.product(*value_lists)\<close>: the tuples of the cartesian product, in the order
  of nested loops with the first list outermost.  The generator is finite and is kept as
  the list of what it yields.
\<close>

fun py_product :: "'a list list \<Rightarrow> 'a list list" where
  "py_product [] = [[]]"
| "py_product (xs # xss) = concat (map (\<lambda>x. map (\<lambda>t. x # t) (py_product xss)) xs)"

text \<open>\<open>combination.setdefault(node_name, {})[param] = value\<close>\<close>

definition set_nested :: "string \<Rightarrow> string \<Rightarrow> scalar \<Rightarrow> combination \<Rightarrow> combination" where
  "set_nested node_name param v c =
     (case map_of c node_name of
        None \<Rightarrow> c @ [(node_name, [(param, v)])]
      | Some ps \<Rightarrow> AList.update node_name (AList.update param v ps) c)"

text \<open>The inner loop over \<open>zip(keys, combo_values)\<close>, from the empty dict.\<close>

definition build_combination :: "(string \<times> string) list \<Rightarrow> scalar list \<Rightarrow> combination" where
  "build_combination keys combo_values =
     fold (\<lambda>((node_name, param), v) c. set_nested node_name param v c)
       (zip keys combo_values) []"

definition iter_combinations :: "axis list \<Rightarrow> combination list" where
  "iter_combinations axes =
     (if axes = [] then [[]]
      else map (build_combination (map fst axes)) (py_product (map snd axes)))"

text \<open>The value an assignment gives to a parameter of a node, if any.\<close>

definition lookup2 :: "combination \<Rightarrow> string \<Rightarrow> string \<Rightarrow> scalar option" where
  "lookup2 c node_name param =
     (case map_of c node_name of None \<Rightarrow> None | Some ps \<Rightarrow> map_of ps param)"

text \<open>
  The index that wheel \<open>j\<close> of an odometer shows at step \<open>i\<close>, when the wheels have
  \<open>lens\<close> positions and the last wheel turns fastest.
\<close>

definition axis_index :: "nat list \<Rightarrow> nat \<Rightarrow> nat \<Rightarrow> nat" where
  "axis_index lens i j = (i div prod_list (drop (Suc j) lens)) mod (lens ! j)"

text \<open>Two axes of two and three values.\<close>

definition two_by_three :: "axis list" where
  "two_by_three =
     [((''A'', ''p''), [SInt 1, SInt 2]),
      ((''B'', ''q''), [SStr ''x'', SStr ''y'', SStr ''z''])]"

section \<open>Verified properties\<close>

subsection \<open>Naming\<close>

lemma map_fst_insort_key:
  "map fst (insort_key fst x xs) = insort (fst x) (map fst xs)"
  by (induction xs) auto

lemma map_fst_sort_key: "map fst (sort_key fst d) = sort (map fst d)"
  by (induction d) (auto simp: map_fst_insort_key)

lemma map_of_relookup:
  assumes "distinct (map fst d)" and "set xs \<subseteq> set d"
  shows "map (\<lambda>k. (k, the (map_of d k))) (map fst xs) = xs"
  using assms(2)
proof (induction xs)
  case Nil
  show ?case by simp
next
  case (Cons x xs)
  obtain k v where x: "x = (k, v)" by (cases x)
  from Cons.prems x have "(k, v) \<in> set d" by simp
  with assms(1) have "map_of d k = Some v" by simp
  with Cons x show ?case by simp
qed

lemma sorted_items:
  assumes "distinct (map fst d)"
  shows "map (\<lambda>k. (k, the (map_of d k))) (sorted_keys d) = sort_key fst d"
proof -
  have "sorted_keys d = map fst (sort_key fst d)"
    by (simp add: sorted_keys_def map_fst_sort_key)
  moreover have "set (sort_key fst d) \<subseteq> set d" by simp
  ultimately show ?thesis using map_of_relookup [OF assms] by simp
qed

lemma filename_params_eq:
  "set ks \<subseteq> fst ` set ps \<Longrightarrow>
   filename_params n ps ks parts =
     Inr (parts @ map (\<lambda>k. n @ ''-'' @ k @ ''-'' @ sanitize_value (the (map_of ps k))) ks)"
proof (induction ks arbitrary: parts)
  case Nil
  show ?case by simp
next
  case (Cons k ks)
  from Cons.prems have "k \<in> fst ` set ps" by simp
  then obtain v where "map_of ps k = Some v"
    by (metis map_of_eq_None_iff not_Some_eq)
  with Cons show ?case by (simp add: getitem_def)
qed

lemma filename_nodes_eq:
  "set ks \<subseteq> fst ` set c \<Longrightarrow>
   filename_nodes c ks parts =
     Inr (parts @ concat (map (\<lambda>k. map (\<lambda>p. k @ ''-'' @ p @ ''-'' @
            sanitize_value (the (map_of (the (map_of c k)) p))) (sorted_keys (the (map_of c k)))) ks))"
proof (induction ks arbitrary: parts)
  case Nil
  show ?case by simp
next
  case (Cons k ks)
  from Cons.prems have "k \<in> fst ` set c" by simp
  then obtain ps where ps: "map_of c k = Some ps"
    by (metis map_of_eq_None_iff not_Some_eq)
  have "set (sorted_keys ps) \<subseteq> fst ` set ps" by (simp add: sorted_keys_def)
  from filename_params_eq [OF this] ps Cons show ?case by (simp add: getitem_def)
qed

lemma view_stringify_eq: "view_stringify_value v = stringify_value v"
  by (cases v) simp_all

lemma view_sanitize_eq: "view_sanitize_value v = sanitize_value v"
  by (simp add: view_sanitize_value_def sanitize_value_def unsafe_chars_def view_stringify_eq)

lemma view_params_eq: "view_params n ps ks parts = filename_params n ps ks parts"
  by (induction ks arbitrary: parts) (simp_all add: view_sanitize_eq split: sum.splits)

lemma view_nodes_eq: "view_nodes c ks parts = filename_nodes c ks parts"
  by (induction ks arbitrary: parts) (simp_all add: view_params_eq split: sum.splits)

text \<open>
  Claim C1.  For every prefix and every assignment, \<open>build_filename\<close> returns the prefix
  followed by one token \<open>node-param-sanitize(value)\<close> per node in lexicographic order and
  per parameter in lexicographic order within its node, all joined with \<open>__\<close>; and
  \<open>build_filename("img", {"A": {"p": 3.0}, "B": {"q": "x y"}})\<close> is
  \<open>"img__A-p-3__B-q-x_y"\<close>.  No lookup of the two loops raises \<open>KeyError\<close>.
\<close>

theorem build_filename_tokens:
  assumes "wf_combination c"
  shows "build_filename prefix c =
           Inr (py_join ''__''
                 (prefix # concat (map (\<lambda>(n, ps).
                     map (\<lambda>(p, v). n @ ''-'' @ p @ ''-'' @ sanitize_value v) (sort_key fst ps))
                   (sort_key fst c))))
         \<and> build_filename ''img'' [(''A'', [(''p'', SFloat 3)]), (''B'', [(''q'', SStr ''x y'')])]
             = Inr ''img__A-p-3__B-q-x_y''"
proof
  have dc: "distinct (map fst c)" using assms by (simp add: wf_combination_def)
  have inner: "map (\<lambda>p. n @ ''-'' @ p @ ''-'' @ sanitize_value (the (map_of ps p))) (sorted_keys ps)
        = map (\<lambda>(p, v). n @ ''-'' @ p @ ''-'' @ sanitize_value v) (sort_key fst ps)"
    if "(n, ps) \<in> set c" for n ps
  proof -
    from that assms have "distinct (map fst ps)"
      by (auto simp: wf_combination_def list_all_iff)
    from sorted_items [OF this, symmetric] show ?thesis
      by (simp add: comp_def)
  qed
  have "set (sorted_keys c) \<subseteq> fst ` set c" by (simp add: sorted_keys_def)
  from filename_nodes_eq [OF this]
  have "filename_nodes c (sorted_keys c) [prefix] =
     Inr ([prefix] @ concat (map (\<lambda>k. map (\<lambda>p. k @ ''-'' @ p @ ''-'' @
            sanitize_value (the (map_of (the (map_of c k)) p))) (sorted_keys (the (map_of c k))))
          (sorted_keys c)))" .
  also have "concat (map (\<lambda>k. map (\<lambda>p. k @ ''-'' @ p @ ''-'' @
            sanitize_value (the (map_of (the (map_of c k)) p))) (sorted_keys (the (map_of c k))))
          (sorted_keys c))
     = concat (map (\<lambda>(n, ps). map (\<lambda>p. n @ ''-'' @ p @ ''-'' @
            sanitize_value (the (map_of ps p))) (sorted_keys ps))
          (map (\<lambda>k. (k, the (map_of c k))) (sorted_keys c)))"
    by (simp add: comp_def)
  also have "\<dots> = concat (map (\<lambda>(n, ps). map (\<lambda>p. n @ ''-'' @ p @ ''-'' @
            sanitize_value (the (map_of ps p))) (sorted_keys ps)) (sort_key fst c))"
    by (simp only: sorted_items [OF dc])
  also have "\<dots> = concat (map (\<lambda>(n, ps).
                     map (\<lambda>(p, v). n @ ''-'' @ p @ ''-'' @ sanitize_value v) (sort_key fst ps))
                   (sort_key fst c))"
    by (rule arg_cong [where f = concat], rule map_cong) (use inner in auto)
  finally show "build_filename prefix c =
           Inr (py_join ''__''
                 (prefix # concat (map (\<lambda>(n, ps).
                     map (\<lambda>(p, v). n @ ''-'' @ p @ ''-'' @ sanitize_value v) (sort_key fst ps))
                   (sort_key fst c))))"
    by (simp add: build_filename_def)
next
  show "build_filename ''img'' [(''A'', [(''p'', SFloat 3)]), (''B'', [(''q'', SStr ''x y'')])]
             = Inr ''img__A-p-3__B-q-x_y''"
    by code_simp
qed

theorem build_filename_tokens_witness:
  "wf_combination [(''B'', [(''q'', SStr ''x y''), (''a'', SBool True)]), (''A'', [(''p'', SFloat 3)])]
   \<and> build_filename ''img'' [(''B'', [(''q'', SStr ''x y''), (''a'', SBool True)]), (''A'', [(''p'', SFloat 3)])]
       = Inr ''img__A-p-3__B-a-True__B-q-x_y''"
proof -
  have wf: "wf_combination [(''B'', [(''q'', SStr ''x y''), (''a'', SBool True)]), (''A'', [(''p'', SFloat 3)])]"
    by (simp add: wf_combination_def)
  have "sanitize_value (SFloat 3) = ''3''" by code_simp
  moreover have "sanitize_value (SStr ''x y'') = ''x_y''" by code_simp
  moreover have "sanitize_value (SBool True) = ''True''" by code_simp
  ultimately show ?thesis
    using wf build_filename_tokens [OF wf, of "''img''"] by simp
qed

text \<open>
  Claim C10.  The viewer's \<open>stringify_value\<close> and \<open>sanitize_value\<close> return the same
  strings as the submitter's, so the base name the viewer rebuilds for an assignment is the
  submitter's \<open>build_filename\<close> of the same prefix and assignment.
\<close>

theorem viewer_names_agree:
  "view_stringify_value v = stringify_value v
   \<and> view_sanitize_value v = sanitize_value v
   \<and> view_base prefix combo = build_filename prefix combo"
  by (simp add: view_stringify_eq view_sanitize_eq view_base_def build_filename_def view_nodes_eq)

subsection \<open>Configuration: normalization and serialization\<close>

lemma update_fresh: "k \<notin> fst ` set d \<Longrightarrow> AList.update k v d = d @ [(k, v)]"
  by (induction d) auto

lemma convert_entries_lists:
  "list_all (\<lambda>e. length e = n) es \<Longrightarrow>
   convert_entries n msg (map JList es) converted = Inr (converted @ es)"
  by (induction es arbitrary: converted) auto

lemma vet_items_len: "vet_items es \<longleftrightarrow> list_all (\<lambda>e. length e = 2) es"
  by (induction es) auto

lemma vet_wedge_list_len: "vet_wedge_list es = None \<Longrightarrow> list_all (\<lambda>e. length e = 3) es"
  by (induction es rule: vet_wedge_list.induct) (auto split: if_splits)

lemma vet_wedge_list_triples:
  "vet_wedge_list es = None \<Longrightarrow> list_all is_triple (map JList es)"
  by (induction es rule: vet_wedge_list.induct) (auto split: if_splits)

lemma vet_items_pairs: "vet_items es \<Longrightarrow> list_all is_pair (map JList es)"
proof (induction es)
  case Nil
  show ?case by simp
next
  case (Cons e es)
  from Cons.prems have "length e = 2" by (simp split: if_splits)
  then obtain p v where "e = [p, v]"
    by (cases e; cases "tl e") auto
  with Cons show ?case by (simp split: if_splits)
qed

lemma overrides_of_dict_roundtrip:
  assumes "vet_overrides m = None" and "distinct (map fst (acc @ m))"
  shows "overrides_of_dict (map (\<lambda>(node, entries). (node, JList (map JList entries))) m) acc
           = Inr (acc @ m)"
  using assms
proof (induction m arbitrary: acc)
  case Nil
  show ?case by simp
next
  case (Cons x m)
  obtain node es where x: "x = (node, es)" by (cases x)
  from Cons.prems(1) x have es: "vet_items es" and rest: "vet_overrides m = None"
    by (auto split: if_splits)
  from Cons.prems(2) x have fresh: "node \<notin> fst ` set acc" by auto
  from Cons.prems(2) x have "distinct (map fst ((acc @ [(node, es)]) @ m))" by simp
  from Cons.IH [OF rest this] es fresh x show ?case
    by (simp add: convert_entries_lists vet_items_len update_fresh)
qed

lemma wedges_of_dict_roundtrip:
  assumes "vet_wedges m = None" and "distinct (map fst (acc @ m))" and "no_empty m"
  shows "wedges_of_dict (map (\<lambda>(node, entries). (node, JList (map JList entries))) m) acc
           = Inr (acc @ m)"
  using assms
proof (induction m arbitrary: acc)
  case Nil
  show ?case by simp
next
  case (Cons x m)
  obtain node es where x: "x = (node, es)" by (cases x)
  from Cons.prems(1) x have es: "vet_wedge_list es = None" and rest: "vet_wedges m = None"
    by (auto split: option.splits)
  from Cons.prems(3) x obtain e es' where ne: "es = e # es'" and ne': "no_empty m"
    by (cases es) (auto simp: no_empty_def)
  from Cons.prems(2) x have fresh: "node \<notin> fst ` set acc" by auto
  from Cons.prems(2) x have d: "distinct (map fst ((acc @ [(node, es)]) @ m))" by simp
  from vet_wedge_list_len [OF es] ne have len: "length e = 3"
    and lens: "list_all (\<lambda>e. length e = 3) es'" by simp_all
  have conv: "convert_entries 3 msg (map JList es') [e] = Inr (e # es')" for msg
    using convert_entries_lists [OF lens, of msg "[e]"] by simp
  from Cons.IH [OF rest d ne'] fresh x ne show ?case
    by (simp add: conv len update_fresh)
qed

lemma bad_text_str: "\<not> bad_text v \<Longrightarrow> truthy v"
  by (simp add: bad_text_def)

lemma vet_parts:
  assumes "vet c = None"
  shows "truthy (output_folder c)" and "vet_overrides (param_overrides c) = None"
    and "vet_wedges (param_wedges c) = None"
  using assms by (auto simp: vet_def bad_text_def split: if_splits option.splits)

lemma current_overrides_json:
  "vet_overrides m = None \<Longrightarrow> current_overrides (json_of_map m)"
  unfolding json_of_map_def
  by (induction m) (auto simp: vet_items_pairs split: if_splits)

lemma current_wedges_json:
  "vet_wedges m = None \<Longrightarrow> no_empty m \<Longrightarrow> current_wedges (json_of_map m)"
  unfolding json_of_map_def
  by (induction m) (auto simp: vet_wedge_list_triples no_empty_def split: option.splits)

text \<open>
  Claim C5.  For every canonical configuration \<open>c\<close>, normalizing the serialized form of
  \<open>c\<close> gives \<open>c\<close> back, and the serialized form is in the current shape: both
  mappings keyed by node, with \<open>[param, value]\<close> pairs and
  \<open>[param, values_spec, kind]\<close> triples, and no legacy key.
\<close>

theorem roundtrip_canonical:
  assumes "canonical c"
  shows "from_dict (to_dict c) = Inr c \<and> current_shape (to_dict c)"
proof
  from assms have v: "vet c = None" and d1: "distinct (map fst ([] @ param_overrides c))"
    and d2: "distinct (map fst ([] @ param_wedges c))" and ne: "no_empty (param_wedges c)"
    by (simp_all add: canonical_def)
  have ov: "normalize_overrides (json_of_map (param_overrides c)) = Inr (param_overrides c)"
    using overrides_of_dict_roundtrip [OF vet_parts(2) [OF v] d1]
    by (simp add: json_of_map_def)
  have we: "normalize_wedges (json_of_map (param_wedges c)) = Inr (param_wedges c)"
    using wedges_of_dict_roundtrip [OF vet_parts(3) [OF v] d2 ne]
    by (simp add: json_of_map_def)
  have same: "\<lparr>output_folder = output_folder c, filename_prefix = filename_prefix c,
      url = url c, param_overrides = param_overrides c, param_wedges = param_wedges c\<rparr> = c"
    by simp
  show "from_dict (to_dict c) = Inr c"
    using vet_parts(1) [OF v] v
    by (simp add: from_dict_def to_dict_def dict_get_def ov we Let_def same)
  show "current_shape (to_dict c)"
    using current_overrides_json [OF vet_parts(2) [OF v]]
      current_wedges_json [OF vet_parts(3) [OF v] ne]
    by (simp add: current_shape_def to_dict_def)
qed

theorem roundtrip_canonical_witness:
  "canonical example_config
   \<and> from_dict (to_dict example_config) = Inr example_config
   \<and> current_shape (to_dict example_config)"
proof -
  have c: "canonical example_config"
    by (simp add: canonical_def example_config_def vet_def bad_text_def no_empty_def)
  from c roundtrip_canonical [OF c] show ?thesis by simp
qed

text \<open>
  Claim C6.  The legacy override list \<open>[["A","p",1]]\<close> normalizes to
  \<open>{"A": [["p", 1]]}\<close>, and the legacy wedge mapping
  \<open>{"p": ["A", [0,1,0.5], "minmax"]}\<close> to \<open>{"A": [["p", [0,1,0.5], "minmax"]]}\<close>:
  legacy entries are re-keyed by node.
\<close>

theorem legacy_shapes_normalized:
  "normalize_overrides (JList [JList [JS (SStr ''A''), JS (SStr ''p''), JS (SInt 1)]])
     = Inr [(''A'', [[JS (SStr ''p''), JS (SInt 1)]])]
   \<and> normalize_wedges
       (JDict [(''p'', JList [JS (SStr ''A''),
                              JList [JS (SInt 0), JS (SInt 1), JS (SFloat (1 / 2))],
                              JS (SStr ''minmax'')])])
     = Inr [(''A'', [[JS (SStr ''p''),
                      JList [JS (SInt 0), JS (SInt 1), JS (SFloat (1 / 2))],
                      JS (SStr ''minmax'')]])]"
  by (simp add: setdefault_append_def)

subsection \<open>Configuration: mutators and empty sequences\<close>

lemma no_empty_update: "no_empty m \<Longrightarrow> v \<noteq> [] \<Longrightarrow> no_empty (AList.update k v m)"
  by (induction m) (auto simp: no_empty_def)

lemma no_empty_delete: "no_empty m \<Longrightarrow> no_empty (AList.delete k m)"
  by (induction m) (auto simp: no_empty_def)

lemma no_empty_setdefault: "no_empty m \<Longrightarrow> no_empty (setdefault_append k x m)"
  by (auto simp: setdefault_append_def no_empty_update split: option.splits)
     (simp add: no_empty_def)

lemma keyed_lookup: "keyed m \<Longrightarrow> map_of m n = Some es \<Longrightarrow> list_all (\<lambda>e. e \<noteq> []) es"
  by (induction m) (auto simp: keyed_def split: if_splits)

lemma keep_other_filter:
  "list_all (\<lambda>e. e \<noteq> []) es \<Longrightarrow>
   keep_other p es = Inr (filter (\<lambda>e. hd e \<noteq> JS (SStr p)) es)"
  by (induction p es rule: keep_other.induct) auto

lemma vet_overrides_keyed: "vet_overrides m = None \<Longrightarrow> keyed m"
proof (induction m)
  case Nil
  show ?case by (simp add: keyed_def)
next
  case (Cons x m)
  obtain n es where x: "x = (n, es)" by (cases x)
  from Cons.prems x have "vet_items es" and "vet_overrides m = None"
    by (auto split: if_splits)
  moreover have "vet_items xs \<Longrightarrow> list_all (\<lambda>e. e \<noteq> []) xs" for xs
    by (induction xs) (auto split: if_splits)
  ultimately show ?case using Cons.IH x by (simp add: keyed_def)
qed

lemma vet_wedges_keyed: "vet_wedges m = None \<Longrightarrow> keyed m"
proof (induction m)
  case Nil
  show ?case by (simp add: keyed_def)
next
  case (Cons x m)
  obtain n es where x: "x = (n, es)" by (cases x)
  from Cons.prems x have "vet_wedge_list es = None" and "vet_wedges m = None"
    by (auto split: option.splits)
  moreover have "vet_wedge_list xs = None \<Longrightarrow> list_all (\<lambda>e. e \<noteq> []) xs" for xs
    by (induction xs rule: vet_wedge_list.induct) (auto split: if_splits)
  ultimately show ?case using Cons.IH x by (simp add: keyed_def)
qed

lemma entries_for_filter:
  "list_all (\<lambda>e. e \<noteq> []) es \<Longrightarrow>
   filter (\<lambda>e. case e of [] \<Rightarrow> False | k # _ \<Rightarrow> k = JS (SStr p)) es
     = filter (\<lambda>e. hd e = JS (SStr p)) es"
  by (induction es) (auto split: list.splits)

lemma set_entry_replaces:
  assumes "keyed m" and "no_empty m" and "new \<noteq> []" and "hd new = JS (SStr p)"
  shows "\<exists>m'. set_entry m n p new = Inr m' \<and> no_empty m' \<and> entries_for m' n p = [new]"
proof -
  define es where "es = (case map_of m n of None \<Rightarrow> [] | Some es \<Rightarrow> es)"
  have ne: "list_all (\<lambda>e. e \<noteq> []) es"
    using keyed_lookup [OF assms(1)] by (auto simp: es_def split: option.splits)
  define kept where "kept = filter (\<lambda>e. hd e \<noteq> JS (SStr p)) es"
  have k: "keep_other p es = Inr kept"
    using keep_other_filter [OF ne] by (simp add: kept_def)
  have ne': "list_all (\<lambda>e. e \<noteq> []) (kept @ [new])"
    using ne assms(3) by (simp add: kept_def list_all_iff)
  have "filter (\<lambda>e. hd e = JS (SStr p)) (kept @ [new]) = [new]"
    using assms(4) by (simp add: kept_def filter_empty_conv)
  with entries_for_filter [OF ne']
  have "entries_for (AList.update n (kept @ [new]) m) n p = [new]"
    by (simp add: entries_for_def update_conv')
  moreover have "no_empty (AList.update n (kept @ [new]) m)"
    using assms(2) by (simp add: no_empty_update)
  moreover have "set_entry m n p new = Inr (AList.update n (kept @ [new]) m)"
    using k by (simp add: set_entry_def es_def [symmetric])
  ultimately show ?thesis by blast
qed

lemma remove_entry_deletes:
  assumes "keyed m" and "no_empty m"
  shows "\<exists>b m'. remove_entry m n p = Inr (b, m') \<and> no_empty m' \<and> entries_for m' n p = []
           \<and> (map_of m n = Some (entries_for m n p) \<longrightarrow> map_of m' n = None)"
proof (cases "map_of m n")
  case None
  with assms show ?thesis by (auto simp: remove_entry_def entries_for_def)
next
  case (Some es)
  have ne: "list_all (\<lambda>e. e \<noteq> []) es" using keyed_lookup [OF assms(1) Some] .
  from Some assms(2) have nonempty: "es \<noteq> []"
    by (induction m) (auto simp: no_empty_def split: if_splits)
  define kept where "kept = filter (\<lambda>e. hd e \<noteq> JS (SStr p)) es"
  have k: "keep_other p es = Inr kept"
    using keep_other_filter [OF ne] by (simp add: kept_def)
  have ne': "list_all (\<lambda>e. e \<noteq> []) kept" using ne by (simp add: kept_def list_all_iff)
  have none: "filter (\<lambda>e. hd e = JS (SStr p)) kept = []"
    by (simp add: kept_def filter_empty_conv)
  have all: "entries_for m n p = filter (\<lambda>e. hd e = JS (SStr p)) es"
    using Some entries_for_filter [OF ne] by (simp add: entries_for_def)
  show ?thesis
  proof (cases "kept = []")
    case True
    with Some k nonempty assms(2) show ?thesis
      by (auto simp: remove_entry_def no_empty_delete entries_for_def delete_conv')
  next
    case False
    have "es \<noteq> filter (\<lambda>e. hd e = JS (SStr p)) es"
    proof
      assume eq: "es = filter (\<lambda>e. hd e = JS (SStr p)) es"
      have "kept = filter (\<lambda>e. hd e \<noteq> JS (SStr p)) (filter (\<lambda>e. hd e = JS (SStr p)) es)"
        unfolding kept_def using eq by simp
      then have "kept = []" by (simp add: filter_empty_conv)
      with False show False by simp
    qed
    with False Some k nonempty assms(2) none entries_for_filter [OF ne'] all show ?thesis
      by (auto simp: remove_entry_def no_empty_update entries_for_def update_conv')
  qed
qed

lemma convert_entries_length:
  "convert_entries k msg js acc = Inr out \<Longrightarrow> length out = length acc + length js"
  by (induction k msg js acc rule: convert_entries.induct) (auto split: if_splits)

lemma wedges_of_dict_no_empty:
  "wedges_of_dict raw acc = Inr w \<Longrightarrow> no_empty acc \<Longrightarrow> no_empty w"
proof (induction raw acc rule: wedges_of_dict.induct)
  case (2 key x others rest normalized)
  let ?msg = "''param_wedges[{node_name!r}] entries must be [param, values, mode] lists.''"
  from "2.prems"(1) obtain converted
    where conv: "convert_entries 3 ?msg (JList x # others) [] = Inr converted"
      and rest: "wedges_of_dict rest (AList.update key converted normalized) = Inr w"
    by (simp only: wedges_of_dict.simps split: sum.splits) auto
  from convert_entries_length [OF conv] have "converted \<noteq> []" by auto
  with "2.prems"(2) have "no_empty (AList.update key converted normalized)"
    by (simp add: no_empty_update)
  with "2.IH" [OF conv] rest show ?case by simp
qed (auto split: json.splits scalar.splits simp: no_empty_setdefault)

lemma normalize_wedges_no_empty: "normalize_wedges raw = Inr w \<Longrightarrow> no_empty w"
  by (cases raw rule: normalize_wedges.cases)
     (auto simp: no_empty_def dest: wedges_of_dict_no_empty)

text \<open>
  Claim C9, as stated, fails after normalization: a document whose \<open>param_overrides\<close>
  gives a node an empty list is accepted by \<open>from_dict\<close>, and the configuration it
  returns maps that node to the empty sequence.
\<close>

theorem normalization_keeps_empty_node:
  "from_dict empty_node_doc = Inr empty_node_config
   \<and> \<not> no_empty (param_overrides empty_node_config)"
  by (simp add: from_dict_def empty_node_doc_def empty_node_config_def dict_get_def
        vet_def bad_text_def no_empty_def)

text \<open>
  Claim C9, amended.  On a configuration that passes \<open>vet\<close> and maps no node to an
  empty sequence, each of the four mutators returns, and in the configuration it returns
  no node is mapped to an empty sequence: setting an override or a wedge leaves exactly
  one entry for the (node, param) pair, the new one; removing leaves none, and deletes the
  node key when the entries removed were all the node had.  Normalizing wedges never
  yields an empty sequence.
\<close>

theorem mutators_preserve_no_empty:
  assumes "vet c = None" and "no_empty (param_overrides c)" and "no_empty (param_wedges c)"
  shows
    "(\<exists>c'. set_param_override c n p v = Inr c'
          \<and> no_empty (param_overrides c') \<and> no_empty (param_wedges c')
          \<and> entries_for (param_overrides c') n p = [[JS (SStr p), v]])
     \<and> (\<exists>b c'. remove_param_override c n p = Inr (b, c')
          \<and> no_empty (param_overrides c') \<and> no_empty (param_wedges c')
          \<and> entries_for (param_overrides c') n p = []
          \<and> (map_of (param_overrides c) n = Some (entries_for (param_overrides c) n p)
               \<longrightarrow> map_of (param_overrides c') n = None))
     \<and> (t = ''minmax'' \<or> t = ''explicit'' \<longrightarrow>
          (\<exists>c'. set_param_wedge c n p vs t = Inr c'
            \<and> no_empty (param_overrides c') \<and> no_empty (param_wedges c')
            \<and> entries_for (param_wedges c') n p = [[JS (SStr p), JList vs, JS (SStr t)]]))
     \<and> (\<exists>b c'. remove_param_wedge c n p = Inr (b, c')
          \<and> no_empty (param_overrides c') \<and> no_empty (param_wedges c')
          \<and> entries_for (param_wedges c') n p = []
          \<and> (map_of (param_wedges c) n = Some (entries_for (param_wedges c) n p)
               \<longrightarrow> map_of (param_wedges c') n = None))
     \<and> (\<forall>raw w. normalize_wedges raw = Inr w \<longrightarrow> no_empty w)"
proof -
  from assms(1) have ko: "keyed (param_overrides c)" and kw: "keyed (param_wedges c)"
    by (auto simp: vet_def intro: vet_overrides_keyed vet_wedges_keyed
          split: if_splits option.splits)
  have a: "\<exists>c'. set_param_override c n p v = Inr c'
          \<and> no_empty (param_overrides c') \<and> no_empty (param_wedges c')
          \<and> entries_for (param_overrides c') n p = [[JS (SStr p), v]]"
    using set_entry_replaces [OF ko assms(2), of "[JS (SStr p), v]" p n] assms(3)
    by (auto simp: set_param_override_def)
  have b: "\<exists>b c'. remove_param_override c n p = Inr (b, c')
          \<and> no_empty (param_overrides c') \<and> no_empty (param_wedges c')
          \<and> entries_for (param_overrides c') n p = []
          \<and> (map_of (param_overrides c) n = Some (entries_for (param_overrides c) n p)
               \<longrightarrow> map_of (param_overrides c') n = None)"
    using remove_entry_deletes [OF ko assms(2), of n p] assms(3)
    by (auto simp: remove_param_override_def)
  have c: "\<exists>c'. set_param_wedge c n p vs t = Inr c'
            \<and> no_empty (param_overrides c') \<and> no_empty (param_wedges c')
            \<and> entries_for (param_wedges c') n p = [[JS (SStr p), JList vs, JS (SStr t)]]"
    if "t = ''minmax'' \<or> t = ''explicit''"
    using set_entry_replaces [OF kw assms(3), of "[JS (SStr p), JList vs, JS (SStr t)]" p n]
      assms(2) that
    by (auto simp: set_param_wedge_def)
  have d: "\<exists>b c'. remove_param_wedge c n p = Inr (b, c')
          \<and> no_empty (param_overrides c') \<and> no_empty (param_wedges c')
          \<and> entries_for (param_wedges c') n p = []
          \<and> (map_of (param_wedges c) n = Some (entries_for (param_wedges c) n p)
               \<longrightarrow> map_of (param_wedges c') n = None)"
    using remove_entry_deletes [OF kw assms(3), of n p] assms(2)
    by (auto simp: remove_param_wedge_def)
  from a b c d normalize_wedges_no_empty show ?thesis by blast
qed

theorem mutators_preserve_no_empty_witness:
  "vet small_config = None \<and> no_empty (param_overrides small_config)
   \<and> no_empty (param_wedges small_config)
   \<and> (\<exists>c'. set_param_override small_config ''Loader'' ''ckpt'' (JS (SStr ''xl'')) = Inr c'
          \<and> no_empty (param_overrides c')
          \<and> entries_for (param_overrides c') ''Loader'' ''ckpt''
              = [[JS (SStr ''ckpt''), JS (SStr ''xl'')]])
   \<and> (\<exists>b c'. remove_param_override small_config ''Loader'' ''ckpt'' = Inr (b, c')
          \<and> no_empty (param_overrides c') \<and> map_of (param_overrides c') ''Loader'' = None)
   \<and> (\<exists>c'. set_param_wedge small_config ''KSampler'' ''seed'' [JS (SInt 1)] ''explicit'' = Inr c'
          \<and> entries_for (param_wedges c') ''KSampler'' ''seed''
              = [[JS (SStr ''seed''), JList [JS (SInt 1)], JS (SStr ''explicit'')]])
   \<and> (\<exists>b c'. remove_param_wedge small_config ''KSampler'' ''seed'' = Inr (b, c')
          \<and> no_empty (param_wedges c') \<and> map_of (param_wedges c') ''KSampler'' = None)"
proof -
  have h1: "vet small_config = None"
    by (simp add: small_config_def vet_def bad_text_def)
  have h2: "no_empty (param_overrides small_config)"
    by (simp add: small_config_def no_empty_def)
  have h3: "no_empty (param_wedges small_config)"
    by (simp add: small_config_def no_empty_def)
  have l1: "map_of (param_overrides small_config) ''Loader''
              = Some (entries_for (param_overrides small_config) ''Loader'' ''ckpt'')"
    by (simp add: small_config_def entries_for_def)
  have l2: "map_of (param_wedges small_config) ''KSampler''
              = Some (entries_for (param_wedges small_config) ''KSampler'' ''seed'')"
    by (simp add: small_config_def entries_for_def)
  show ?thesis
    using h1 h2 h3 l1 l2
      mutators_preserve_no_empty [OF h1 h2 h3, of "''Loader''" "''ckpt''" "JS (SStr ''xl'')"
        "''explicit''" "[JS (SInt 1)]"]
      mutators_preserve_no_empty [OF h1 h2 h3, of "''KSampler''" "''seed''" "JS SNone"
        "''explicit''" "[JS (SInt 1)]"]
    by blast
qed

end
